theory Spec2Isabelle
  imports Main
begin

section \<open>Python string primitives used by the search command\<close>

text \<open>
  Command-line tokens are Python 2 byte strings, modelled as \<open>string\<close> (a list of 8-bit
  characters). The three string methods the parsers call are embedded for the way they
  are called: with a separator of exactly one character.
\<close>

text \<open>\<open>s.split(sep)\<close>: cut at every occurrence of the separator. The result always has
  at least one piece (the empty string gives one empty piece).\<close>

fun split_all :: "char \<Rightarrow> string \<Rightarrow> string list" where
  "split_all sep [] = [[]]"
| "split_all sep (c # cs) =
     (if c = sep then [] # split_all sep cs
      else (let r = split_all sep cs in (c # hd r) # tl r))"

text \<open>\<open>s.split(sep, maxsplit)\<close> for \<open>maxsplit \<ge> 0\<close>: at most \<open>maxsplit\<close> cuts, from the
  left; what is left after the last cut is the last piece, separators included.\<close>

fun split_max :: "char \<Rightarrow> nat \<Rightarrow> string \<Rightarrow> string list" where
  "split_max sep 0 s = [s]"
| "split_max sep (Suc n) [] = [[]]"
| "split_max sep (Suc n) (c # cs) =
     (if c = sep then [] # split_max sep n cs
      else (let r = split_max sep (Suc n) cs in (c # hd r) # tl r))"

text \<open>\<open>s.lower()\<close> on a byte string: the 26 upper-case ASCII letters are mapped to
  their lower-case letters, every other byte is kept.\<close>

definition lower_char :: "char \<Rightarrow> char" where
  "lower_char c =
     (case map_of (zip ''ABCDEFGHIJKLMNOPQRSTUVWXYZ'' ''abcdefghijklmnopqrstuvwxyz'') c of
        None \<Rightarrow> c
      | Some l \<Rightarrow> l)"

definition lower :: "string \<Rightarrow> string" where
  "lower s = map lower_char s"

section \<open>Errors\<close>

datatype error =
    ValueError string
  | CommandUsage
  | TypeError

section \<open>SearchCommand: the parsers\<close>

text \<open>\<open>_parse_key_value\<close>: the loop over \<open>args\<close> with the accumulator \<open>ret\<close>. Each
  element appended is the two-element list \<open>components\<close> itself.\<close>

fun parse_key_value_loop :: "string list \<Rightarrow> string list list \<Rightarrow> error + string list list" where
  "parse_key_value_loop [] ret = Inr ret"
| \<open>parse_key_value_loop (arg # args) ret =
     (let components = split_max CHR ''='' 1 arg in
      if length components \<noteq> 2
      then Inl (ValueError ''key and value must be separated by "="'')
      else parse_key_value_loop args (ret @ [components]))\<close>

definition parse_key_value :: "string list \<Rightarrow> error + string list list" where
  "parse_key_value args = parse_key_value_loop args []"

text \<open>\<open>_explode_sort_arg_pieces\<close>. \<open>pieces[0]\<close> is read with \<open>hd\<close>: \<open>split\<close> never
  returns the empty list (lemma \<open>split_all_not_Nil\<close> below), so the read cannot fail.
  \<open>pieces[1:2]\<close> is \<open>take 1 (drop 1 pieces)\<close>, \<open>''''.join\<close> is \<open>concat\<close>, and
  \<open>x or 'ascending'\<close> picks the default when \<open>x\<close> is the empty string.\<close>

definition explode_sort_arg_pieces :: "string \<Rightarrow> string \<times> string" where
  "explode_sort_arg_pieces sort_arg =
     (let pieces = split_all CHR '','' (lower sort_arg);
          field_name = hd pieces;
          joined = concat (take 1 (drop 1 pieces));
          direction = (if joined \<noteq> [] then joined else ''ascending'')
      in (field_name, direction))"

text \<open>\<open>_validate_sort\<close>: returns nothing when every token passes; \<open>str(arg)\<close> is the
  identity on a byte string. The messages are the texts handed to \<open>gettext\<close>, before
  translation.\<close>

fun validate_sort :: "string list \<Rightarrow> error + unit" where
  "validate_sort [] = Inr ()"
| \<open>validate_sort (arg # sort_args) =
     (case explode_sort_arg_pieces arg of (field_name, direction) \<Rightarrow>
        if length field_name = 0
        then Inl (ValueError ''field name must be specified'')
        else if direction \<notin> set [''ascending'', ''descending'']
        then Inl (ValueError ''direction must be "ascending" or "descending"'')
        else validate_sort sort_args)\<close>

text \<open>\<open>_parse_sort\<close>: the loop over \<open>sort_args\<close> with the accumulator \<open>ret\<close>.\<close>

fun parse_sort_loop :: "string list \<Rightarrow> (string \<times> string) list \<Rightarrow> error + (string \<times> string) list" where
  "parse_sort_loop [] ret = Inr ret"
| "parse_sort_loop (v # sort_args) ret =
     (case explode_sort_arg_pieces v of (field_name, direction) \<Rightarrow>
        if direction \<notin> set [''ascending'', ''descending'']
        then Inl CommandUsage
        else parse_sort_loop sort_args (ret @ [(field_name, direction)]))"

definition parse_sort :: "string list \<Rightarrow> error + (string \<times> string) list" where
  "parse_sort sort_args = parse_sort_loop sort_args []"

section \<open>Values, keyword arguments and options\<close>

text \<open>The constructors receive arbitrary Python values through \<open>*args\<close> and
  \<open>**kwargs\<close>; the code only tests them for truth (\<open>if filtering:\<close>,
  \<open>kwargs.pop('name', None) or 'search'\<close>) or hands them on.\<close>

datatype pyval =
    PyNone
  | PyBool bool
  | PyInt int
  | PyStr string
  | PyCallable string

fun truthy :: "pyval \<Rightarrow> bool" where
  "truthy PyNone = False"
| "truthy (PyBool b) = b"
| "truthy (PyInt i) = (i \<noteq> 0)"
| "truthy (PyStr s) = (s \<noteq> [])"
| "truthy (PyCallable f) = True"

text \<open>A keyword dictionary is an association list read at its first binding of a key.\<close>

type_synonym kwargs = "(string \<times> pyval) list"

definition kw_has :: "kwargs \<Rightarrow> string \<Rightarrow> bool" where
  "kw_has kw k = (map_of kw k \<noteq> None)"

definition kw_del :: "string \<Rightarrow> kwargs \<Rightarrow> kwargs" where
  "kw_del k kw = filter (\<lambda>p. fst p \<noteq> k) kw"

definition kw_set :: "string \<Rightarrow> pyval \<Rightarrow> kwargs \<Rightarrow> kwargs" where
  "kw_set k v kw = (k, v) # kw_del k kw"

text \<open>\<open>kwargs.pop(k, None) or d\<close>: the value read, and the dictionary without the key.\<close>

definition kw_pop_or :: "string \<Rightarrow> pyval \<Rightarrow> kwargs \<Rightarrow> pyval \<times> kwargs" where
  "kw_pop_or k d kw =
     ((case map_of kw k of None \<Rightarrow> d | Some v \<Rightarrow> if truthy v then v else d), kw_del k kw)"

text \<open>The functions an option is registered with are kept as tags.\<close>

datatype parse_fn =
    P_json_loads
  | P_parse_key_value
  | P_int
  | P_parse_sort
  | P_split_comma
  | P_iso8601

datatype validate_fn =
    V_positive_int_validator
  | V_non_negative_int_validator
  | V_validate_sort
  | V_str

text \<open>An option as \<open>PulpCliOption(name, description, required, allow_multiple, aliases,
  default, validate_func, parse_func)\<close> builds it. The help text and the default
  (never given in this file) are left out.\<close>

record cli_option =
  opt_name :: string
  opt_required :: bool
  opt_allow_multiple :: bool
  opt_aliases :: "string list"
  opt_validate_func :: "validate_fn option"
  opt_parse_func :: "parse_fn option"

definition PulpCliOption ::
  "string \<Rightarrow> bool \<Rightarrow> bool \<Rightarrow> string list \<Rightarrow> validate_fn option \<Rightarrow> parse_fn option \<Rightarrow> cli_option" where
  "PulpCliOption name required allow_multiple aliases validate_func parse_func =
     \<lparr>opt_name = name, opt_required = required, opt_allow_multiple = allow_multiple,
      opt_aliases = aliases, opt_validate_func = validate_func, opt_parse_func = parse_func\<rparr>"

record option_group =
  group_name :: string
  group_options :: "cli_option list"

record command =
  cmd_name :: pyval
  cmd_description :: pyval
  cmd_method :: pyval
  options :: "cli_option list"
  option_groups :: "option_group list"

section \<open>The command framework\<close>

text \<open>Modelled from the spec: the command base class \<open>PulpCliCommand\<close> and the
  \<open>OptionGroup\<close> of the CLI framework are imported by the source and not part of it.
  The spec makes the framework the collaborator that supplies option registration; it
  is modelled as a command that starts with no option and no group, to which
  \<open>add_option\<close> and \<open>add_option_group\<close> append, \<open>create_option\<close> being
  \<open>add_option\<close> of a freshly built option. What the base constructor does with the
  remaining \<open>*args\<close> and \<open>**kwargs\<close> is outside this file and not modelled.\<close>

definition PulpCliCommand_init :: "pyval \<Rightarrow> pyval \<Rightarrow> pyval \<Rightarrow> pyval list \<Rightarrow> kwargs \<Rightarrow> command" where
  "PulpCliCommand_init name description method args kwargs =
     \<lparr>cmd_name = name, cmd_description = description, cmd_method = method,
      options = [], option_groups = []\<rparr>"

definition add_option :: "command \<Rightarrow> cli_option \<Rightarrow> command" where
  "add_option self opt = self\<lparr>options := options self @ [opt]\<rparr>"

definition create_option ::
  "command \<Rightarrow> string \<Rightarrow> string list \<Rightarrow> bool \<Rightarrow> bool \<Rightarrow> parse_fn option \<Rightarrow> command" where
  "create_option self name aliases required allow_multiple parse_func =
     add_option self (PulpCliOption name required allow_multiple aliases None parse_func)"

definition add_option_group :: "command \<Rightarrow> option_group \<Rightarrow> command" where
  "add_option_group self g = self\<lparr>option_groups := option_groups self @ [g]\<rparr>"

definition OptionGroup :: "string \<Rightarrow> option_group" where
  "OptionGroup name = \<lparr>group_name = name, group_options = []\<rparr>"

definition group_add_option :: "option_group \<Rightarrow> cli_option \<Rightarrow> option_group" where
  "group_add_option g opt = g\<lparr>group_options := group_options g @ [opt]\<rparr>"

text \<open>Every option of a command: its own, then those of its groups. This is the option
  set the command offers on the command line.\<close>

definition all_options :: "command \<Rightarrow> cli_option list" where
  "all_options self = options self @ concat (map group_options (option_groups self))"

definition option_names :: "command \<Rightarrow> string set" where
  "option_names self = set (map opt_name (all_options self))"

section \<open>SearchCommand: construction\<close>

text \<open>\<open>add_filtering\<close>: the \<open>--filters\<close> option on the command itself, the nine
  operator options in the group \<open>Filters\<close>.\<close>

definition key_value_option :: "string \<Rightarrow> cli_option" where
  "key_value_option name = PulpCliOption name False True [] None (Some P_parse_key_value)"

definition add_filtering :: "command \<Rightarrow> command" where
  "add_filtering self =
     (let self = add_option self (PulpCliOption ''--filters'' False False [] None (Some P_json_loads));
          filter_group = OptionGroup ''Filters'';
          filter_group = group_add_option filter_group (key_value_option ''--str-eq'');
          filter_group = group_add_option filter_group (key_value_option ''--int-eq'');
          filter_group = group_add_option filter_group (key_value_option ''--match'');
          filter_group = group_add_option filter_group (key_value_option ''--in'');
          filter_group = group_add_option filter_group (key_value_option ''--not'');
          filter_group = group_add_option filter_group (key_value_option ''--gt'');
          filter_group = group_add_option filter_group (key_value_option ''--gte'');
          filter_group = group_add_option filter_group (key_value_option ''--lt'');
          filter_group = group_add_option filter_group (key_value_option ''--lte'')
      in add_option_group self filter_group)"

definition add_full_criteria_options :: "command \<Rightarrow> command" where
  "add_full_criteria_options self =
     (let self = add_option self
            (PulpCliOption ''--limit'' False False [] (Some V_positive_int_validator) (Some P_int));
          self = add_option self
            (PulpCliOption ''--skip'' False False [] (Some V_non_negative_int_validator) (Some P_int));
          self = add_option self
            (PulpCliOption ''--sort'' False True [] (Some V_validate_sort) (Some P_parse_sort))
      in add_option self
            (PulpCliOption ''--fields'' False False [] (Some V_str) (Some P_split_comma)))"

text \<open>Binding of a parameter with default \<open>True\<close> that stands at position \<open>i\<close> after
  \<open>method\<close>: a positional argument there binds it, and a keyword of the same name is
  then a second value for it, which Python refuses with a \<open>TypeError\<close>.\<close>

definition bind_flag :: "string \<Rightarrow> nat \<Rightarrow> pyval list \<Rightarrow> kwargs \<Rightarrow> error + pyval" where
  "bind_flag name i args kwargs =
     (if i < length args
      then (if kw_has kwargs name then Inl TypeError else Inr (args ! i))
      else (case map_of kwargs name of None \<Rightarrow> Inr (PyBool True) | Some v \<Rightarrow> Inr v))"

definition SEARCH_DESCRIPTION :: string where
  "SEARCH_DESCRIPTION =
     ''search items while optionally specifying sort, limit, skip, and requested fields''"

text \<open>\<open>SearchCommand.__init__(self, method, filtering=True, criteria=True, *args,
  **kwargs)\<close>, called with \<open>method\<close> in first position, the further positional
  arguments \<open>args\<close> and the keywords \<open>kwargs\<close>.\<close>

definition SearchCommand_init :: "pyval \<Rightarrow> pyval list \<Rightarrow> kwargs \<Rightarrow> error + command" where
  "SearchCommand_init method args kwargs =
     (if kw_has kwargs ''method'' then Inl TypeError
      else case bind_flag ''filtering'' 0 args kwargs of
        Inl e \<Rightarrow> Inl e
      | Inr filtering \<Rightarrow>
        (case bind_flag ''criteria'' 1 args kwargs of
           Inl e \<Rightarrow> Inl e
         | Inr criteria \<Rightarrow>
           (let args = drop 2 args;
                kwargs = kw_del ''criteria'' (kw_del ''filtering'' kwargs);
                (name, kwargs) = kw_pop_or ''name'' (PyStr ''search'') kwargs;
                (description, kwargs) = kw_pop_or ''description'' (PyStr SEARCH_DESCRIPTION) kwargs;
                self = PulpCliCommand_init name description method args kwargs;
                self = (if truthy filtering then add_filtering self else self);
                self = (if truthy criteria then add_full_criteria_options self else self)
            in Inr self)))"

section \<open>The unit commands\<close>

text \<open>\<open>UnitSearchCommand.__init__(self, method, *args, **kwargs)\<close>, called with the
  positional arguments \<open>args\<close> and the keywords \<open>kwargs\<close>: \<open>method\<close> is the first
  positional argument, or the keyword of that name when there is none.\<close>

definition UnitSearchCommand_body :: "pyval \<Rightarrow> pyval list \<Rightarrow> kwargs \<Rightarrow> error + command" where
  "UnitSearchCommand_body method args kwargs =
     (case SearchCommand_init method args kwargs of
        Inl e \<Rightarrow> Inl e
      | Inr self \<Rightarrow>
        (let self = add_option self (PulpCliOption ''--repo-id'' True False [] None None);
             self = create_option self ''--after'' [''-a''] False False (Some P_iso8601);
             self = create_option self ''--before'' [''-b''] False False (Some P_iso8601)
         in Inr self))"

definition UnitSearchCommand_init :: "pyval list \<Rightarrow> kwargs \<Rightarrow> error + command" where
  "UnitSearchCommand_init args kwargs =
     (case args of
        method # rest \<Rightarrow>
          if kw_has kwargs ''method'' then Inl TypeError
          else UnitSearchCommand_body method rest kwargs
      | [] \<Rightarrow>
          (case map_of kwargs ''method'' of
             None \<Rightarrow> Inl TypeError
           | Some method \<Rightarrow> UnitSearchCommand_body method [] (kw_del ''method'' kwargs)))"

text \<open>\<open>UnitCopyCommand.__init__(self, *args, **kwargs)\<close>.\<close>

definition UnitCopyCommand_init :: "pyval list \<Rightarrow> kwargs \<Rightarrow> error + command" where
  "UnitCopyCommand_init args kwargs =
     (let kwargs = kw_set ''criteria'' (PyBool False) kwargs in
      case UnitSearchCommand_init args kwargs of
        Inl e \<Rightarrow> Inl e
      | Inr self \<Rightarrow>
        (let self = self\<lparr>options := filter (\<lambda>opt. opt_name opt \<noteq> ''--repo-id'') (options self)\<rparr>;
             self = create_option self ''--from-repo-id'' [''-f''] True False None;
             self = create_option self ''--to-repo-id'' [''-t''] True False None
         in Inr self))"

text \<open>\<open>UnitSearchAllCommand.__init__(self, *args, **kwargs)\<close>.\<close>

definition UnitSearchAllCommand_init :: "pyval list \<Rightarrow> kwargs \<Rightarrow> error + command" where
  "UnitSearchAllCommand_init args kwargs =
     (let kwargs = kw_set ''filtering'' (PyBool False) kwargs in
      case UnitSearchCommand_init args kwargs of
        Inl e \<Rightarrow> Inl e
      | Inr self \<Rightarrow>
        (let OPTIONS_TO_REMOVE = set [''--sort'', ''--fields''];
             self = self\<lparr>options := filter (\<lambda>opt. opt_name opt \<notin> OPTIONS_TO_REMOVE) (options self)\<rparr>
         in Inr self))"

section \<open>Facts about the string primitives\<close>

lemma split_all_not_Nil: "split_all sep s \<noteq> []"
  by (induction s) (simp_all add: Let_def)

lemma split_max_not_Nil: "split_max sep n s \<noteq> []"
  by (induction sep n s rule: split_max.induct) (simp_all add: Let_def)

lemma split_max_one:
  "split_max sep (Suc 0) s =
     (if sep \<in> set s
      then [takeWhile (\<lambda>c. c \<noteq> sep) s, tl (dropWhile (\<lambda>c. c \<noteq> sep) s)]
      else [s])"
  by (induction s) (simp_all add: Let_def)

lemma hd_split_all: "hd (split_all sep s) = takeWhile (\<lambda>c. c \<noteq> sep) s"
  by (induction s) (simp_all add: Let_def)

lemma tl_split_all:
  "tl (split_all sep s) =
     (if sep \<in> set s then split_all sep (tl (dropWhile (\<lambda>c. c \<noteq> sep) s)) else [])"
  by (induction s) (simp_all add: Let_def)

lemma lower_char_comma: "lower_char c = CHR '','' \<longleftrightarrow> c = CHR '',''"
  by (auto simp: lower_char_def split: if_splits)

lemma takeWhile_lower:
  "takeWhile (\<lambda>c. c \<noteq> CHR '','') (lower s) = lower (takeWhile (\<lambda>c. c \<noteq> CHR '','') s)"
  by (induction s) (simp_all add: lower_def lower_char_comma)

lemma dropWhile_lower:
  "dropWhile (\<lambda>c. c \<noteq> CHR '','') (lower s) = lower (dropWhile (\<lambda>c. c \<noteq> CHR '','') s)"
  by (induction s) (simp_all add: lower_def lower_char_comma)

lemma comma_in_lower: "CHR '','' \<in> set (lower s) \<longleftrightarrow> CHR '','' \<in> set s"
proof -
  have "\<And>c. CHR '','' = lower_char c \<longleftrightarrow> c = CHR '',''"
    using lower_char_comma by (metis)
  then show ?thesis by (induction s) (auto simp: lower_def)
qed

lemma tl_lower: "tl (lower s) = lower (tl s)"
  by (cases s) (simp_all add: lower_def)

lemma explode_sort_arg_pieces_char:
  "explode_sort_arg_pieces tok =
     (lower (takeWhile (\<lambda>c. c \<noteq> CHR '','') tok),
      if CHR '','' \<in> set tok
      then (let d = lower (takeWhile (\<lambda>c. c \<noteq> CHR '','') (tl (dropWhile (\<lambda>c. c \<noteq> CHR '','') tok)))
            in if d \<noteq> [] then d else ''ascending'')
      else ''ascending'')"
proof -
  let ?ps = "split_all CHR '','' (lower tok)"
  have h: "hd ?ps = lower (takeWhile (\<lambda>c. c \<noteq> CHR '','') tok)"
    by (simp add: hd_split_all takeWhile_lower)
  have d: "concat (take 1 (drop 1 ?ps)) =
      (if CHR '','' \<in> set tok
       then lower (takeWhile (\<lambda>c. c \<noteq> CHR '','') (tl (dropWhile (\<lambda>c. c \<noteq> CHR '','') tok)))
       else [])"
  proof (cases "CHR '','' \<in> set tok")
    case True
    have "take 1 (drop 1 ?ps) = take 1 (tl ?ps)" by (simp add: drop_Suc)
    also have "\<dots> = [hd (tl ?ps)]"
      using True split_all_not_Nil [of "CHR '',''"]
      by (cases "tl ?ps") (simp_all add: tl_split_all comma_in_lower)
    finally show ?thesis using True
      by (simp add: tl_split_all comma_in_lower hd_split_all dropWhile_lower tl_lower takeWhile_lower)
  next
    case False
    then show ?thesis by (simp add: drop_Suc tl_split_all comma_in_lower)
  qed
  show ?thesis
    unfolding explode_sort_arg_pieces_def Let_def h d by simp
qed

lemma parse_key_value_loop_char:
  "parse_key_value_loop args ret =
     (if \<forall>a \<in> set args. CHR ''='' \<in> set a
      then Inr (ret @ map (\<lambda>a. [takeWhile (\<lambda>c. c \<noteq> CHR ''='') a,
                                tl (dropWhile (\<lambda>c. c \<noteq> CHR ''='') a)]) args)
      else Inl (ValueError (''key and value must be separated by '' @ [CHR 0x22, CHR ''='', CHR 0x22])))"
  by (induction args arbitrary: ret) (simp_all add: split_max_one)

lemma parse_sort_loop_char:
  "parse_sort_loop toks ret =
     (if \<forall>t \<in> set toks. snd (explode_sort_arg_pieces t) \<in> {''ascending'', ''descending''}
      then Inr (ret @ map explode_sort_arg_pieces toks)
      else Inl CommandUsage)"
  by (induction toks arbitrary: ret) (auto split: prod.splits)

lemma validate_sort_ok_iff:
  "validate_sort toks = Inr () \<longleftrightarrow>
     (\<forall>t \<in> set toks. fst (explode_sort_arg_pieces t) \<noteq> [] \<and>
                      snd (explode_sort_arg_pieces t) \<in> {''ascending'', ''descending''})"
  by (induction toks) (auto split: prod.splits)

lemma validate_sort_cases:
  "validate_sort toks = Inr () \<or> (\<exists>msg. validate_sort toks = Inl (ValueError msg))"
  by (induction toks) (auto split: prod.splits)

lemma takeWhile_before_sep:
  "sep \<notin> set a \<Longrightarrow> takeWhile (\<lambda>c. c \<noteq> sep) (a @ sep # z) = a"
  by (induction a) auto

lemma dropWhile_before_sep:
  "sep \<notin> set a \<Longrightarrow> dropWhile (\<lambda>c. c \<noteq> sep) (a @ sep # z) = sep # z"
  by (induction a) auto

lemma takeWhile_no_sep:
  "sep \<notin> set a \<Longrightarrow> takeWhile (\<lambda>c. c \<noteq> sep) a = a"
  by (induction a) auto

section \<open>Filter terms\<close>

text \<open>
  Claim C1. When every element of the list contains an \<open>=\<close>, \<open>_parse_key_value\<close>
  returns a list of the same length whose \<open>i\<close>-th element is the two components of
  the \<open>i\<close>-th input: the field is what stands before the first \<open>=\<close> (it contains
  none) and the value is everything after it, further \<open>=\<close> included.
\<close>

theorem parse_key_value_first_equals:
  assumes "\<forall>a \<in> set args. CHR ''='' \<in> set a"
  shows "\<exists>ret. parse_key_value args = Inr ret \<and> length ret = length args \<and>
           (\<forall>i < length args. \<exists>field val.
               ret ! i = [field, val] \<and>
               args ! i = field @ CHR ''='' # val \<and>
               CHR ''='' \<notin> set field)"
proof -
  let ?f = "\<lambda>a. [takeWhile (\<lambda>c. c \<noteq> CHR ''='') a, tl (dropWhile (\<lambda>c. c \<noteq> CHR ''='') a)]"
  have r: "parse_key_value args = Inr (map ?f args)"
    using assms by (simp add: parse_key_value_def parse_key_value_loop_char)
  have "\<exists>field val. map ?f args ! i = [field, val] \<and> args ! i = field @ CHR ''='' # val \<and>
           CHR ''='' \<notin> set field" if "i < length args" for i
  proof -
    let ?a = "args ! i"
    from that assms have m: "CHR ''='' \<in> set ?a" by simp
    then have dw: "dropWhile (\<lambda>c. c \<noteq> CHR ''='') ?a \<noteq> []" by simp
    then have "hd (dropWhile (\<lambda>c. c \<noteq> CHR ''='') ?a) = CHR ''=''"
      using hd_dropWhile [of "\<lambda>c. c \<noteq> CHR ''=''" ?a] by simp
    with dw have "dropWhile (\<lambda>c. c \<noteq> CHR ''='') ?a =
        CHR ''='' # tl (dropWhile (\<lambda>c. c \<noteq> CHR ''='') ?a)"
      by (cases "dropWhile (\<lambda>c. c \<noteq> CHR ''='') ?a") simp_all
    then have "?a = takeWhile (\<lambda>c. c \<noteq> CHR ''='') ?a @ CHR ''='' # tl (dropWhile (\<lambda>c. c \<noteq> CHR ''='') ?a)"
      by (metis takeWhile_dropWhile_id)
    moreover have "CHR ''='' \<notin> set (takeWhile (\<lambda>c. c \<noteq> CHR ''='') ?a)"
      by (auto dest: set_takeWhileD)
    ultimately show ?thesis using that by simp
  qed
  with r show ?thesis by simp
qed

text \<open>
  At \<open>a=b=c\<close> the field is \<open>a\<close> and the value \<open>b=c\<close>.
\<close>

theorem parse_key_value_first_equals_witness:
  "parse_key_value [''a=b=c''] = Inr [[''a'', ''b=c'']]"
proof -
  have h: "\<forall>a \<in> set [''a=b=c'']. CHR ''='' \<in> set a" by simp
  from parse_key_value_first_equals [OF h]
  obtain ret where r: "parse_key_value [''a=b=c''] = Inr ret" by blast
  then show ?thesis by (simp add: parse_key_value_def)
qed

section \<open>Sort tokens\<close>

text \<open>
  Claim C2. \<open>_explode_sort_arg_pieces\<close> splits the lower-cased token at its commas.
  The field name is the first piece, that is the lower-cased text before the first comma.
  A non-empty second piece is the direction, and pieces after a further comma change
  nothing. With no second piece (no comma in the token) the direction is
  \<open>ascending\<close>.
\<close>

theorem explode_sort_arg_pieces_decomposition:
  "fst (explode_sort_arg_pieces tok) = hd (split_all CHR '','' (lower tok)) \<and>
   fst (explode_sort_arg_pieces tok) = lower (takeWhile (\<lambda>c. c \<noteq> CHR '','') tok) \<and>
   (\<forall>f d more. split_all CHR '','' (lower tok) = f # d # more \<and> d \<noteq> [] \<longrightarrow>
        explode_sort_arg_pieces tok = (f, d)) \<and>
   (\<forall>a b rest. CHR '','' \<notin> set a \<and> CHR '','' \<notin> set b \<longrightarrow>
        explode_sort_arg_pieces (a @ CHR '','' # b @ CHR '','' # rest) =
        explode_sort_arg_pieces (a @ CHR '','' # b)) \<and>
   (length (split_all CHR '','' (lower tok)) < 2 \<longrightarrow>
        snd (explode_sort_arg_pieces tok) = ''ascending'') \<and>
   (CHR '','' \<notin> set tok \<longrightarrow> explode_sort_arg_pieces tok = (lower tok, ''ascending''))"
proof (intro conjI allI impI)
  show "fst (explode_sort_arg_pieces tok) = hd (split_all CHR '','' (lower tok))"
    by (simp add: explode_sort_arg_pieces_def Let_def)
  show "fst (explode_sort_arg_pieces tok) = lower (takeWhile (\<lambda>c. c \<noteq> CHR '','') tok)"
    by (simp add: explode_sort_arg_pieces_char)
next
  fix f d more
  assume "split_all CHR '','' (lower tok) = f # d # more \<and> d \<noteq> []"
  then show "explode_sort_arg_pieces tok = (f, d)"
    by (simp add: explode_sort_arg_pieces_def Let_def)
next
  fix a b rest :: string
  assume h: "CHR '','' \<notin> set a \<and> CHR '','' \<notin> set b"
  then have ta: "\<And>z. takeWhile (\<lambda>c. c \<noteq> CHR '','') (a @ CHR '','' # z) = a"
    and da: "\<And>z. dropWhile (\<lambda>c. c \<noteq> CHR '','') (a @ CHR '','' # z) = CHR '','' # z"
    and tb: "\<And>z. takeWhile (\<lambda>c. c \<noteq> CHR '','') (b @ CHR '','' # z) = b"
    and tb': "takeWhile (\<lambda>c. c \<noteq> CHR '','') b = b"
    by (simp_all add: takeWhile_before_sep dropWhile_before_sep takeWhile_no_sep)
  show "explode_sort_arg_pieces (a @ CHR '','' # b @ CHR '','' # rest) =
        explode_sort_arg_pieces (a @ CHR '','' # b)"
    by (simp add: explode_sort_arg_pieces_char ta da tb tb' del: append_assoc)
next
  assume "length (split_all CHR '','' (lower tok)) < 2"
  then have "drop 1 (split_all CHR '','' (lower tok)) = []" by simp
  then show "snd (explode_sort_arg_pieces tok) = ''ascending''"
    by (simp add: explode_sort_arg_pieces_def Let_def)
next
  assume "CHR '','' \<notin> set tok"
  then show "explode_sort_arg_pieces tok = (lower tok, ''ascending'')"
    by (simp add: explode_sort_arg_pieces_char takeWhile_no_sep)
qed

text \<open>
  \<open>Name\<close> gives \<open>(name, ascending)\<close>, \<open>Name,Descending\<close> gives
  \<open>(name, descending)\<close>, and a third piece is ignored.
\<close>

theorem explode_sort_arg_pieces_decomposition_witness:
  "explode_sort_arg_pieces ''Name'' = (''name'', ''ascending'') \<and>
   explode_sort_arg_pieces ''Name,Descending'' = (''name'', ''descending'') \<and>
   explode_sort_arg_pieces ''Name,Descending,x'' = explode_sort_arg_pieces ''Name,Descending''"
proof -
  have c: "CHR '','' \<notin> set ''Name''" by simp
  have l: "lower ''Name'' = ''name''" by (simp add: lower_def lower_char_def)
  have s: "split_all CHR '','' (lower ''Name,Descending'') = ''name'' # ''descending'' # [] \<and> ''descending'' \<noteq> []"
    by (simp add: lower_def lower_char_def)
  have n: "CHR '','' \<notin> set ''Name'' \<and> CHR '','' \<notin> set ''Descending''" by simp
  note t = explode_sort_arg_pieces_decomposition
  from t [of "''Name''"] c l have 1: "explode_sort_arg_pieces ''Name'' = (''name'', ''ascending'')"
    by simp
  from t [of "''Name,Descending''"] s
  have 2: "explode_sort_arg_pieces ''Name,Descending'' = (''name'', ''descending'')"
    by blast
  from t [of "[]"] n
  have 3: "explode_sort_arg_pieces (''Name'' @ CHR '','' # ''Descending'' @ CHR '','' # ''x'') =
           explode_sort_arg_pieces (''Name'' @ CHR '','' # ''Descending'')"
    by blast
  from 1 2 3 show ?thesis by simp
qed

text \<open>
  Claim C3. When \<open>_validate_sort\<close> completes on a list of tokens, \<open>_parse_sort\<close>
  of the same list does not raise \<open>CommandUsage\<close>: it returns a list.
\<close>

theorem validated_sort_parses:
  assumes "validate_sort toks = Inr ()"
  shows "parse_sort toks \<noteq> Inl CommandUsage \<and> (\<exists>ret. parse_sort toks = Inr ret)"
  using assms by (simp add: validate_sort_ok_iff parse_sort_def parse_sort_loop_char)

theorem validated_sort_parses_witness:
  "validate_sort [''b'', ''a,descending''] = Inr () \<and>
   parse_sort [''b'', ''a,descending''] \<noteq> Inl CommandUsage"
proof -
  have v: "validate_sort [''b'', ''a,descending''] = Inr ()"
    by (simp add: explode_sort_arg_pieces_def lower_def lower_char_def)
  from validated_sort_parses [OF v] v show ?thesis by blast
qed

text \<open>
  Claim C4. \<open>_validate_sort\<close> raises a \<open>ValueError\<close> exactly when some token has
  an empty extracted field name or an extracted direction that is neither
  \<open>ascending\<close> nor \<open>descending\<close>; otherwise it completes.
\<close>

theorem validate_sort_rejects_iff:
  "((\<exists>msg. validate_sort toks = Inl (ValueError msg)) \<longleftrightarrow>
      (\<exists>t \<in> set toks. fst (explode_sort_arg_pieces t) = [] \<or>
          (snd (explode_sort_arg_pieces t) \<noteq> ''ascending'' \<and>
           snd (explode_sort_arg_pieces t) \<noteq> ''descending''))) \<and>
   (validate_sort toks = Inr () \<longleftrightarrow>
      \<not> (\<exists>t \<in> set toks. fst (explode_sort_arg_pieces t) = [] \<or>
          (snd (explode_sort_arg_pieces t) \<noteq> ''ascending'' \<and>
           snd (explode_sort_arg_pieces t) \<noteq> ''descending'')))"
proof -
  have ok: "validate_sort toks = Inr () \<longleftrightarrow>
      \<not> (\<exists>t \<in> set toks. fst (explode_sort_arg_pieces t) = [] \<or>
          (snd (explode_sort_arg_pieces t) \<noteq> ''ascending'' \<and>
           snd (explode_sort_arg_pieces t) \<noteq> ''descending''))"
    by (auto simp: validate_sort_ok_iff)
  have "(\<exists>msg. validate_sort toks = Inl (ValueError msg)) \<longleftrightarrow> validate_sort toks \<noteq> Inr ()"
    using validate_sort_cases [of toks] by auto
  with ok show ?thesis by simp
qed

text \<open>
  The tokens \<open>,ascending\<close> (empty field) and \<open>name,sideways\<close> (illegal direction)
  are rejected; a list of two legal tokens passes.
\<close>

theorem validate_sort_rejects_iff_witness:
  "(\<exists>msg. validate_sort ['',ascending''] = Inl (ValueError msg)) \<and>
   (\<exists>msg. validate_sort [''name,sideways''] = Inl (ValueError msg)) \<and>
   validate_sort [''name,descending'', ''Id''] = Inr ()"
proof -
  have a: "\<exists>t \<in> set ['',ascending'']. fst (explode_sort_arg_pieces t) = [] \<or>
          (snd (explode_sort_arg_pieces t) \<noteq> ''ascending'' \<and>
           snd (explode_sort_arg_pieces t) \<noteq> ''descending'')"
    by (simp add: explode_sort_arg_pieces_def lower_def lower_char_def)
  have b: "\<exists>t \<in> set [''name,sideways'']. fst (explode_sort_arg_pieces t) = [] \<or>
          (snd (explode_sort_arg_pieces t) \<noteq> ''ascending'' \<and>
           snd (explode_sort_arg_pieces t) \<noteq> ''descending'')"
    by (simp add: explode_sort_arg_pieces_def lower_def lower_char_def)
  have c: "\<not> (\<exists>t \<in> set [''name,descending'', ''Id'']. fst (explode_sort_arg_pieces t) = [] \<or>
          (snd (explode_sort_arg_pieces t) \<noteq> ''ascending'' \<and>
           snd (explode_sort_arg_pieces t) \<noteq> ''descending''))"
    by (simp add: explode_sort_arg_pieces_def lower_def lower_char_def)
  from validate_sort_rejects_iff [of "['',ascending'']"] a
       validate_sort_rejects_iff [of "[''name,sideways'']"] b
       validate_sort_rejects_iff [of "[''name,descending'', ''Id'']"] c
  show ?thesis by blast
qed

text \<open>
  Claim C6. The list \<open>_parse_sort\<close> returns follows the input: it has the length of
  the token list and its \<open>i\<close>-th pair is the decomposition of the \<open>i\<close>-th token.
\<close>

theorem parse_sort_input_order:
  assumes "parse_sort toks = Inr ret"
  shows "length ret = length toks \<and>
         (\<forall>i < length toks. ret ! i = explode_sort_arg_pieces (toks ! i)) \<and>
         ret = map explode_sort_arg_pieces toks"
  using assms by (auto simp: parse_sort_def parse_sort_loop_char split: if_splits)

text \<open>
  The tokens \<open>b\<close> and \<open>a,descending\<close> give \<open>(b, ascending)\<close>, then
  \<open>(a, descending)\<close>.
\<close>

theorem parse_sort_input_order_witness:
  "parse_sort [''b'', ''a,descending''] = Inr [(''b'', ''ascending''), (''a'', ''descending'')]"
proof -
  have p: "parse_sort [''b'', ''a,descending''] =
      Inr [(''b'', ''ascending''), (''a'', ''descending'')]"
    by (simp add: parse_sort_def explode_sort_arg_pieces_def lower_def lower_char_def)
  from parse_sort_input_order [OF p] p show ?thesis by blast
qed

text \<open>
  Claim C9. A token made of a non-empty field name and a trailing comma decomposes as
  the field name alone does: the empty direction piece gives way to the default. The
  token passes \<open>_validate_sort\<close> and \<open>_parse_sort\<close> returns the lower-cased field with
  \<open>ascending\<close>.
\<close>

theorem trailing_comma_defaults:
  assumes "CHR '','' \<notin> set f" and "f \<noteq> []"
  shows "explode_sort_arg_pieces (f @ '','') = explode_sort_arg_pieces f \<and>
         explode_sort_arg_pieces (f @ '','') = (lower f, ''ascending'') \<and>
         validate_sort [f @ '',''] = Inr () \<and>
         parse_sort [f @ '',''] = Inr [(lower f, ''ascending'')]"
proof -
  have e: "explode_sort_arg_pieces (f @ '','') = (lower f, ''ascending'')"
    using assms(1)
    by (simp add: explode_sort_arg_pieces_char takeWhile_before_sep dropWhile_before_sep lower_def)
  have e': "explode_sort_arg_pieces f = (lower f, ''ascending'')"
    using assms(1) by (simp add: explode_sort_arg_pieces_char takeWhile_no_sep)
  have l: "lower f \<noteq> []" using assms(2) by (simp add: lower_def)
  show ?thesis using e e' l
    by (simp add: validate_sort_ok_iff parse_sort_def parse_sort_loop_char)
qed

text \<open>
  The token \<open>field,\<close> passes validation and parses to \<open>(field, ascending)\<close>.
\<close>

theorem trailing_comma_defaults_witness:
  "validate_sort [''field,''] = Inr () \<and>
   parse_sort [''field,''] = Inr [(''field'', ''ascending'')]"
proof -
  have a: "CHR '','' \<notin> set ''field''" by simp
  have b: "''field'' \<noteq> []" by simp
  have l: "lower ''field'' = ''field''" by (simp add: lower_def lower_char_def)
  from trailing_comma_defaults [OF a b]
  have "validate_sort [''field'' @ '',''] = Inr () \<and>
        parse_sort [''field'' @ '',''] = Inr [(lower ''field'', ''ascending'')]"
    by blast
  then show ?thesis by (simp only: l append_Cons append_Nil)
qed

section \<open>Filter terms: failure and the empty field\<close>

text \<open>
  Claim C5. \<open>_parse_key_value\<close> raises its \<open>ValueError\<close> exactly when some element of
  the list contains no \<open>=\<close>, and returns a list exactly when none does. The error is
  the whole outcome: nothing of the accumulated list is returned, and no other error
  is raised.
\<close>

theorem parse_key_value_fails_iff:
  "((\<exists>msg. parse_key_value args = Inl (ValueError msg)) \<longleftrightarrow>
       (\<exists>a \<in> set args. CHR ''='' \<notin> set a)) \<and>
   ((\<exists>ret. parse_key_value args = Inr ret) \<longleftrightarrow>
       \<not> (\<exists>a \<in> set args. CHR ''='' \<notin> set a)) \<and>
   parse_key_value args \<noteq> Inl CommandUsage \<and>
   parse_key_value args \<noteq> Inl TypeError"
  by (simp add: parse_key_value_def parse_key_value_loop_char)

text \<open>
  The list \<open>[novalue]\<close> fails, and so does a list whose second element has no \<open>=\<close>
  after a first that parsed; a list of two well-formed terms is returned.
\<close>

theorem parse_key_value_fails_iff_witness:
  "(\<exists>msg. parse_key_value [''novalue''] = Inl (ValueError msg)) \<and>
   (\<exists>msg. parse_key_value [''a=1'', ''novalue''] = Inl (ValueError msg)) \<and>
   (\<exists>ret. parse_key_value [''a=1'', ''b=2''] = Inr ret)"
proof -
  have a: "\<exists>a \<in> set [''novalue'']. CHR ''='' \<notin> set a" by simp
  have b: "\<exists>a \<in> set [''a=1'', ''novalue'']. CHR ''='' \<notin> set a" by simp
  have c: "\<not> (\<exists>a \<in> set [''a=1'', ''b=2'']. CHR ''='' \<notin> set a)" by simp
  from parse_key_value_fails_iff [of "[''novalue'']"] a
       parse_key_value_fails_iff [of "[''a=1'', ''novalue'']"] b
       parse_key_value_fails_iff [of "[''a=1'', ''b=2'']"] c
  show ?thesis by blast
qed

text \<open>
  Claim C10. \<open>_parse_key_value\<close> accepts an empty field name: an element that begins
  with \<open>=\<close> parses to the empty field and the rest as value, alone or at any place of
  a list whose elements all contain an \<open>=\<close>.
\<close>

theorem parse_key_value_empty_field:
  "parse_key_value [CHR ''='' # v] = Inr [['''', v]] \<and>
   ((\<forall>a \<in> set args. CHR ''='' \<in> set a) \<and> i < length args \<and> args ! i = CHR ''='' # v \<longrightarrow>
      (\<exists>ret. parse_key_value args = Inr ret \<and> ret ! i = ['''', v]))"
  by (simp add: parse_key_value_def parse_key_value_loop_char)

text \<open>
  The element \<open>=v\<close> gives the pair of the empty string and \<open>v\<close>.
\<close>

theorem parse_key_value_empty_field_witness:
  "parse_key_value [''=v''] = Inr [['''', ''v'']] \<and>
   (\<exists>ret. parse_key_value [''a=b'', ''=v''] = Inr ret \<and> ret ! 1 = ['''', ''v''])"
proof -
  have h: "(\<forall>a \<in> set [''a=b'', ''=v'']. CHR ''='' \<in> set a) \<and> 1 < length [''a=b'', ''=v''] \<and>
           [''a=b'', ''=v''] ! 1 = CHR ''='' # ''v''" by simp
  from parse_key_value_empty_field [of "''v''" "[''a=b'', ''=v'']" 1] h
  show ?thesis by blast
qed

section \<open>Facts about construction\<close>

text \<open>
  The names of the options a constructor registers, in the order of registration, for
  the values its two flags were bound to.
\<close>

lemma map_of_kw_del: "map_of (kw_del k kw) k' = (if k' = k then None else map_of kw k')"
  by (induction kw) (auto simp: kw_del_def)

lemma map_of_kw_set: "map_of (kw_set k v kw) k' = (if k' = k then Some v else map_of kw k')"
  by (simp add: kw_set_def map_of_kw_del)

lemma names_add_filtering:
  "map opt_name (options (add_filtering self)) = map opt_name (options self) @ [''--filters'']"
  "map opt_name (concat (map group_options (option_groups (add_filtering self)))) =
     map opt_name (concat (map group_options (option_groups self))) @
     [''--str-eq'', ''--int-eq'', ''--match'', ''--in'', ''--not'', ''--gt'', ''--gte'',
      ''--lt'', ''--lte'']"
  by (simp_all add: add_filtering_def add_option_def add_option_group_def OptionGroup_def
        group_add_option_def key_value_option_def PulpCliOption_def)

lemma names_add_full_criteria_options:
  "map opt_name (options (add_full_criteria_options self)) =
     map opt_name (options self) @ [''--limit'', ''--skip'', ''--sort'', ''--fields'']"
  "option_groups (add_full_criteria_options self) = option_groups self"
  by (simp_all add: add_full_criteria_options_def add_option_def PulpCliOption_def)

lemma SearchCommand_init_names:
  assumes "SearchCommand_init method args kwargs = Inr self"
  shows "\<exists>filtering criteria.
           bind_flag ''filtering'' 0 args kwargs = Inr filtering \<and>
           bind_flag ''criteria'' 1 args kwargs = Inr criteria \<and>
           map opt_name (options self) =
             (if truthy filtering then [''--filters''] else []) @
             (if truthy criteria then [''--limit'', ''--skip'', ''--sort'', ''--fields''] else []) \<and>
           map opt_name (concat (map group_options (option_groups self))) =
             (if truthy filtering
              then [''--str-eq'', ''--int-eq'', ''--match'', ''--in'', ''--not'', ''--gt'',
                    ''--gte'', ''--lt'', ''--lte'']
              else [])"
proof -
  from assms have nm: "\<not> kw_has kwargs ''method''"
    by (cases "kw_has kwargs ''method''") (simp_all add: SearchCommand_init_def)
  from assms nm obtain filtering where f: "bind_flag ''filtering'' 0 args kwargs = Inr filtering"
    by (cases "bind_flag ''filtering'' 0 args kwargs") (simp_all add: SearchCommand_init_def)
  from assms nm f obtain criteria where c: "bind_flag ''criteria'' 1 args kwargs = Inr criteria"
    by (cases "bind_flag ''criteria'' 1 args kwargs") (simp_all add: SearchCommand_init_def)
  obtain name kw1 where n:
    "kw_pop_or ''name'' (PyStr ''search'') (kw_del ''criteria'' (kw_del ''filtering'' kwargs)) = (name, kw1)"
    by (cases "kw_pop_or ''name'' (PyStr ''search'') (kw_del ''criteria'' (kw_del ''filtering'' kwargs))")
  obtain description kw2 where d:
    "kw_pop_or ''description'' (PyStr SEARCH_DESCRIPTION) kw1 = (description, kw2)"
    by (cases "kw_pop_or ''description'' (PyStr SEARCH_DESCRIPTION) kw1")
  define s0 where "s0 = PulpCliCommand_init name description method (drop 2 args) kw2"
  define s1 where "s1 = (if truthy filtering then add_filtering s0 else s0)"
  have self: "self = (if truthy criteria then add_full_criteria_options s1 else s1)"
    using assms nm f c n d unfolding SearchCommand_init_def s0_def s1_def
    by (simp add: Let_def)
  have o0: "options s0 = []" and g0: "option_groups s0 = []"
    by (simp_all add: s0_def PulpCliCommand_init_def)
  have o1: "map opt_name (options s1) = (if truthy filtering then [''--filters''] else [])"
    by (simp add: s1_def names_add_filtering(1) o0)
  have g1: "map opt_name (concat (map group_options (option_groups s1))) =
             (if truthy filtering
              then [''--str-eq'', ''--int-eq'', ''--match'', ''--in'', ''--not'', ''--gt'',
                    ''--gte'', ''--lt'', ''--lte'']
              else [])"
    by (simp add: s1_def names_add_filtering(2) g0)
  have o2: "map opt_name (options self) = map opt_name (options s1) @
      (if truthy criteria then [''--limit'', ''--skip'', ''--sort'', ''--fields''] else [])"
    by (simp add: self names_add_full_criteria_options(1))
  have g2: "option_groups self = option_groups s1"
    by (simp add: self names_add_full_criteria_options(2))
  show ?thesis
    using f c by (simp only: o2 o1 g2 g1) blast
qed

lemma UnitSearchCommand_body_names:
  assumes "UnitSearchCommand_body method args kwargs = Inr self"
  shows "\<exists>filtering criteria.
           bind_flag ''filtering'' 0 args kwargs = Inr filtering \<and>
           bind_flag ''criteria'' 1 args kwargs = Inr criteria \<and>
           map opt_name (options self) =
             (if truthy filtering then [''--filters''] else []) @
             (if truthy criteria then [''--limit'', ''--skip'', ''--sort'', ''--fields''] else []) @
             [''--repo-id'', ''--after'', ''--before''] \<and>
           map opt_name (concat (map group_options (option_groups self))) =
             (if truthy filtering
              then [''--str-eq'', ''--int-eq'', ''--match'', ''--in'', ''--not'', ''--gt'',
                    ''--gte'', ''--lt'', ''--lte'']
              else [])"
proof -
  from assms obtain s0 where s0: "SearchCommand_init method args kwargs = Inr s0"
    and self: "self = create_option (create_option
                  (add_option s0 (PulpCliOption ''--repo-id'' True False [] None None))
                  ''--after'' [''-a''] False False (Some P_iso8601))
                  ''--before'' [''-b''] False False (Some P_iso8601)"
    by (auto simp: UnitSearchCommand_body_def Let_def split: sum.splits)
  from SearchCommand_init_names [OF s0] obtain filtering criteria where
    b: "bind_flag ''filtering'' 0 args kwargs = Inr filtering"
       "bind_flag ''criteria'' 1 args kwargs = Inr criteria"
    and o: "map opt_name (options s0) =
             (if truthy filtering then [''--filters''] else []) @
             (if truthy criteria then [''--limit'', ''--skip'', ''--sort'', ''--fields''] else [])"
    and g: "map opt_name (concat (map group_options (option_groups s0))) =
             (if truthy filtering
              then [''--str-eq'', ''--int-eq'', ''--match'', ''--in'', ''--not'', ''--gt'',
                    ''--gte'', ''--lt'', ''--lte'']
              else [])"
    by blast
  have "map opt_name (options self) = map opt_name (options s0) @ [''--repo-id'', ''--after'', ''--before'']"
    by (simp add: self create_option_def add_option_def PulpCliOption_def)
  moreover have "option_groups self = option_groups s0"
    by (simp add: self create_option_def add_option_def)
  ultimately show ?thesis using b o g by simp
qed

lemma UnitSearchCommand_init_names:
  assumes "UnitSearchCommand_init args kwargs = Inr self"
  shows "\<exists>filtering criteria.
           bind_flag ''filtering'' 0 (tl args) (kw_del ''method'' kwargs) = Inr filtering \<and>
           bind_flag ''criteria'' 1 (tl args) (kw_del ''method'' kwargs) = Inr criteria \<and>
           map opt_name (options self) =
             (if truthy filtering then [''--filters''] else []) @
             (if truthy criteria then [''--limit'', ''--skip'', ''--sort'', ''--fields''] else []) @
             [''--repo-id'', ''--after'', ''--before''] \<and>
           map opt_name (concat (map group_options (option_groups self))) =
             (if truthy filtering
              then [''--str-eq'', ''--int-eq'', ''--match'', ''--in'', ''--not'', ''--gt'',
                    ''--gte'', ''--lt'', ''--lte'']
              else [])"
proof (cases args)
  case Nil
  with assms obtain m where
    "UnitSearchCommand_body m [] (kw_del ''method'' kwargs) = Inr self"
    by (auto simp: UnitSearchCommand_init_def split: option.splits)
  from UnitSearchCommand_body_names [OF this] Nil show ?thesis by simp
next
  case (Cons m rest)
  with assms have nm: "\<not> kw_has kwargs ''method''"
    and b: "UnitSearchCommand_body m rest kwargs = Inr self"
    by (auto simp: UnitSearchCommand_init_def split: if_splits)
  have "bind_flag name i rest (kw_del ''method'' kwargs) = bind_flag name i rest kwargs"
    if "name \<noteq> ''method''" for name i
    using that by (simp add: bind_flag_def kw_has_def map_of_kw_del)
  with UnitSearchCommand_body_names [OF b] Cons show ?thesis by simp
qed

lemma bind_flag_forced:
  assumes "bind_flag k i args (kw_del ''method'' (kw_set k v kw)) = Inr x" and "k \<noteq> ''method''"
  shows "x = v \<and> \<not> i < length args"
  using assms
  by (auto simp: bind_flag_def kw_has_def map_of_kw_del map_of_kw_set split: if_splits)

lemma bind_flag_keyword:
  assumes "\<not> i < length args" and "k \<noteq> k'" and "k \<noteq> ''method''"
  shows "bind_flag k i args (kw_del ''method'' (kw_set k' v kw)) =
           Inr (case map_of kw k of None \<Rightarrow> PyBool True | Some w \<Rightarrow> w)"
  using assms
  by (simp add: bind_flag_def map_of_kw_del map_of_kw_set split: option.splits)

lemma opt_name_in_names: "opt \<in> set xs \<Longrightarrow> opt_name opt \<in> set (map opt_name xs)"
  by simp

section \<open>The option sets of the unit commands\<close>

text \<open>
  Claim C7. Whenever \<open>UnitCopyCommand\<close> is constructed, its option set contains
  \<open>--from-repo-id\<close> and \<open>--to-repo-id\<close>, every option of either name is required,
  and the set contains none of \<open>--repo-id\<close>, \<open>--limit\<close>, \<open>--skip\<close>, \<open>--sort\<close>
  and \<open>--fields\<close>, whatever arguments the caller passed.
\<close>

theorem UnitCopyCommand_option_set:
  assumes "UnitCopyCommand_init args kwargs = Inr self"
  shows "''--from-repo-id'' \<in> option_names self \<and>
         ''--to-repo-id'' \<in> option_names self \<and>
         (\<forall>opt \<in> set (all_options self).
             opt_name opt = ''--from-repo-id'' \<or> opt_name opt = ''--to-repo-id'' \<longrightarrow>
             opt_required opt) \<and>
         ''--repo-id'' \<notin> option_names self \<and>
         ''--limit'' \<notin> option_names self \<and>
         ''--skip'' \<notin> option_names self \<and>
         ''--sort'' \<notin> option_names self \<and>
         ''--fields'' \<notin> option_names self"
proof -
  let ?from = "PulpCliOption ''--from-repo-id'' True False [''-f''] None None"
  let ?to = "PulpCliOption ''--to-repo-id'' True False [''-t''] None None"
  let ?kept = "\<lambda>s. filter (\<lambda>opt. opt_name opt \<noteq> ''--repo-id'') (options s)"
  from assms obtain s0 where
    s0: "UnitSearchCommand_init args (kw_set ''criteria'' (PyBool False) kwargs) = Inr s0"
    and self: "self = create_option (create_option (s0\<lparr>options := ?kept s0\<rparr>)
                 ''--from-repo-id'' [''-f''] True False None)
                 ''--to-repo-id'' [''-t''] True False None"
    by (auto simp: UnitCopyCommand_init_def Let_def split: sum.splits)
  from UnitSearchCommand_init_names [OF s0] obtain filtering criteria where
    c: "bind_flag ''criteria'' 1 (tl args)
          (kw_del ''method'' (kw_set ''criteria'' (PyBool False) kwargs)) = Inr criteria"
    and o: "map opt_name (options s0) =
             (if truthy filtering then [''--filters''] else []) @
             (if truthy criteria then [''--limit'', ''--skip'', ''--sort'', ''--fields''] else []) @
             [''--repo-id'', ''--after'', ''--before'']"
    and g: "map opt_name (concat (map group_options (option_groups s0))) =
             (if truthy filtering
              then [''--str-eq'', ''--int-eq'', ''--match'', ''--in'', ''--not'', ''--gt'',
                    ''--gte'', ''--lt'', ''--lte'']
              else [])"
    by blast
  from bind_flag_forced [OF c] have "criteria = PyBool False" by simp
  with o have o': "map opt_name (options s0) =
      (if truthy filtering then [''--filters''] else []) @ [''--repo-id'', ''--after'', ''--before'']"
    by simp
  have os: "options self = ?kept s0 @ [?from, ?to]"
    and gs: "option_groups self = option_groups s0"
    by (simp_all add: self create_option_def add_option_def)
  have kept: "map opt_name (?kept s0) =
      (if truthy filtering then [''--filters''] else []) @ [''--after'', ''--before'']"
  proof -
    have "map opt_name (?kept s0) = filter (\<lambda>n. n \<noteq> ''--repo-id'') (map opt_name (options s0))"
      by (simp add: filter_map comp_def)
    then show ?thesis by (simp add: o')
  qed
  have names: "map opt_name (all_options self) =
      (if truthy filtering then [''--filters''] else []) @
      [''--after'', ''--before'', ''--from-repo-id'', ''--to-repo-id''] @
      (if truthy filtering
       then [''--str-eq'', ''--int-eq'', ''--match'', ''--in'', ''--not'', ''--gt'',
             ''--gte'', ''--lt'', ''--lte'']
       else [])"
    unfolding all_options_def os gs map_append kept g
    by (simp add: PulpCliOption_def)
  have req: "opt_required opt"
    if m: "opt \<in> set (all_options self)"
    and n: "opt_name opt = ''--from-repo-id'' \<or> opt_name opt = ''--to-repo-id''" for opt
  proof -
    from m have "opt \<in> set (?kept s0) \<or> opt = ?from \<or> opt = ?to \<or>
        opt \<in> set (concat (map group_options (option_groups s0)))"
      unfolding all_options_def os gs by auto
    then consider (k) "opt \<in> set (?kept s0)" | (n) "opt = ?from \<or> opt = ?to"
      | (g) "opt \<in> set (concat (map group_options (option_groups s0)))"
      by blast
    then show ?thesis
    proof cases
      case k
      from opt_name_in_names [OF k] have "opt_name opt \<in> {''--filters'', ''--after'', ''--before''}"
        unfolding kept by (auto split: if_splits)
      with n show ?thesis by auto
    next
      case n
      then show ?thesis by (auto simp: PulpCliOption_def)
    next
      case g
      from opt_name_in_names [OF g] n show ?thesis
        unfolding \<open>map opt_name (concat (map group_options (option_groups s0))) = _\<close>
        by (auto split: if_splits)
    qed
  qed
  have mem: "''--from-repo-id'' \<in> option_names self" "''--to-repo-id'' \<in> option_names self"
    "''--repo-id'' \<notin> option_names self" "''--limit'' \<notin> option_names self"
    "''--skip'' \<notin> option_names self" "''--sort'' \<notin> option_names self"
    "''--fields'' \<notin> option_names self"
    unfolding option_names_def names by simp_all
  from mem req show ?thesis by blast
qed

text \<open>
  Construction with the method alone succeeds and gives such an option set.
\<close>

theorem UnitCopyCommand_option_set_witness:
  "\<exists>self. UnitCopyCommand_init [PyCallable ''copy''] [] = Inr self \<and>
      ''--from-repo-id'' \<in> option_names self \<and> ''--to-repo-id'' \<in> option_names self \<and>
      ''--repo-id'' \<notin> option_names self \<and> ''--limit'' \<notin> option_names self \<and>
      ''--skip'' \<notin> option_names self \<and> ''--sort'' \<notin> option_names self \<and>
      ''--fields'' \<notin> option_names self"
proof -
  have "\<exists>self. UnitCopyCommand_init [PyCallable ''copy''] [] = Inr self"
    by (simp add: UnitCopyCommand_init_def UnitSearchCommand_init_def UnitSearchCommand_body_def
          SearchCommand_init_def bind_flag_def kw_has_def kw_set_def kw_del_def kw_pop_or_def
          Let_def)
  then obtain self where s: "UnitCopyCommand_init [PyCallable ''copy''] [] = Inr self" ..
  from UnitCopyCommand_option_set [OF s] s show ?thesis by blast
qed

text \<open>
  Claim C8, as amended. Whenever \<open>UnitSearchAllCommand\<close> is constructed, its option
  set contains no filter option (neither \<open>--filters\<close> nor an operator option), no
  \<open>--sort\<close> and no \<open>--fields\<close>. It retains \<open>--limit\<close> and \<open>--skip\<close> when the
  caller passed no \<open>criteria\<close> keyword or a true one: the keyword reaches
  \<open>SearchCommand.__init__\<close> unchanged, and a false value there leaves the criteria
  options out altogether.
\<close>

theorem UnitSearchAllCommand_option_set:
  assumes "UnitSearchAllCommand_init args kwargs = Inr self"
  shows "option_names self \<inter>
           {''--filters'', ''--str-eq'', ''--int-eq'', ''--match'', ''--in'', ''--not'',
            ''--gt'', ''--gte'', ''--lt'', ''--lte'', ''--sort'', ''--fields''} = {} \<and>
         ((case map_of kwargs ''criteria'' of None \<Rightarrow> True | Some v \<Rightarrow> truthy v) \<longrightarrow>
            ''--limit'' \<in> option_names self \<and> ''--skip'' \<in> option_names self) \<and>
         map opt_name (all_options self) =
           (if (case map_of kwargs ''criteria'' of None \<Rightarrow> True | Some v \<Rightarrow> truthy v)
            then [''--limit'', ''--skip''] else []) @
           [''--repo-id'', ''--after'', ''--before'']"
proof -
  let ?crit = "case map_of kwargs ''criteria'' of None \<Rightarrow> PyBool True | Some v \<Rightarrow> v"
  let ?kept = "\<lambda>s. filter (\<lambda>opt. opt_name opt \<notin> set [''--sort'', ''--fields'']) (options s)"
  from assms obtain s0 where
    s0: "UnitSearchCommand_init args (kw_set ''filtering'' (PyBool False) kwargs) = Inr s0"
    and self: "self = s0\<lparr>options := ?kept s0\<rparr>"
    by (auto simp: UnitSearchAllCommand_init_def Let_def split: sum.splits)
  from UnitSearchCommand_init_names [OF s0] obtain filtering criteria where
    f: "bind_flag ''filtering'' 0 (tl args)
          (kw_del ''method'' (kw_set ''filtering'' (PyBool False) kwargs)) = Inr filtering"
    and c: "bind_flag ''criteria'' 1 (tl args)
          (kw_del ''method'' (kw_set ''filtering'' (PyBool False) kwargs)) = Inr criteria"
    and o: "map opt_name (options s0) =
             (if truthy filtering then [''--filters''] else []) @
             (if truthy criteria then [''--limit'', ''--skip'', ''--sort'', ''--fields''] else []) @
             [''--repo-id'', ''--after'', ''--before'']"
    and g: "map opt_name (concat (map group_options (option_groups s0))) =
             (if truthy filtering
              then [''--str-eq'', ''--int-eq'', ''--match'', ''--in'', ''--not'', ''--gt'',
                    ''--gte'', ''--lt'', ''--lte'']
              else [])"
    by blast
  from bind_flag_forced [OF f] have ff: "filtering = PyBool False" and na: "\<not> 0 < length (tl args)"
    by simp_all
  from na have "\<not> 1 < length (tl args)" by simp
  from bind_flag_keyword [OF this, of "''criteria''" "''filtering''" "PyBool False" kwargs] c
  have cc: "criteria = ?crit" by simp
  have tc: "truthy ?crit = (case map_of kwargs ''criteria'' of None \<Rightarrow> True | Some v \<Rightarrow> truthy v)"
    by (simp split: option.splits)
  have o': "map opt_name (options s0) =
      (if truthy ?crit then [''--limit'', ''--skip'', ''--sort'', ''--fields''] else []) @
      [''--repo-id'', ''--after'', ''--before'']"
    using o by (simp add: ff cc)
  have g': "concat (map group_options (option_groups s0)) = []"
    using g by (simp add: ff)
  have "map opt_name (?kept s0) =
      filter (\<lambda>n. n \<notin> set [''--sort'', ''--fields'']) (map opt_name (options s0))"
    by (simp add: filter_map comp_def)
  then have kept: "map opt_name (?kept s0) =
      (if truthy ?crit then [''--limit'', ''--skip''] else []) @
      [''--repo-id'', ''--after'', ''--before'']"
    by (simp add: o')
  have names: "map opt_name (all_options self) =
      (if truthy ?crit then [''--limit'', ''--skip''] else []) @
      [''--repo-id'', ''--after'', ''--before'']"
    using kept g' by (simp add: all_options_def self)
  have excl: "option_names self \<inter>
           {''--filters'', ''--str-eq'', ''--int-eq'', ''--match'', ''--in'', ''--not'',
            ''--gt'', ''--gte'', ''--lt'', ''--lte'', ''--sort'', ''--fields''} = {}"
    unfolding option_names_def names by simp
  have keep: "truthy ?crit \<Longrightarrow>
      ''--limit'' \<in> option_names self \<and> ''--skip'' \<in> option_names self"
    unfolding option_names_def names by simp
  from excl keep names show ?thesis unfolding tc by blast
qed

text \<open>
  Construction with the method alone keeps \<open>--limit\<close> and \<open>--skip\<close>.
\<close>

theorem UnitSearchAllCommand_option_set_witness:
  "\<exists>self. UnitSearchAllCommand_init [PyCallable ''search''] [] = Inr self \<and>
      ''--limit'' \<in> option_names self \<and> ''--skip'' \<in> option_names self \<and>
      map opt_name (all_options self) =
        [''--limit'', ''--skip'', ''--repo-id'', ''--after'', ''--before'']"
proof -
  have "\<exists>self. UnitSearchAllCommand_init [PyCallable ''search''] [] = Inr self"
    by (simp add: UnitSearchAllCommand_init_def UnitSearchCommand_init_def
          UnitSearchCommand_body_def SearchCommand_init_def bind_flag_def kw_has_def kw_set_def
          kw_del_def kw_pop_or_def Let_def)
  then obtain self where s: "UnitSearchAllCommand_init [PyCallable ''search''] [] = Inr self" ..
  have h: "case map_of ([] :: kwargs) ''criteria'' of None \<Rightarrow> True | Some v \<Rightarrow> truthy v"
    by simp
  from UnitSearchAllCommand_option_set [OF s] h s show ?thesis by auto
qed

text \<open>
  Claim C8 as stated fails: constructed with \<open>criteria=False\<close>, the command has
  neither \<open>--limit\<close> nor \<open>--skip\<close>.
\<close>

theorem UnitSearchAllCommand_retains_counterexample:
  "\<not> isl (UnitSearchAllCommand_init [PyCallable ''search''] [(''criteria'', PyBool False)]) \<and>
   ''--limit'' \<notin> option_names
      (projr (UnitSearchAllCommand_init [PyCallable ''search''] [(''criteria'', PyBool False)])) \<and>
   ''--skip'' \<notin> option_names
      (projr (UnitSearchAllCommand_init [PyCallable ''search''] [(''criteria'', PyBool False)]))"
proof -
  have e: "UnitSearchAllCommand_init [PyCallable ''search''] [(''criteria'', PyBool False)] =
      Inr \<lparr>cmd_name = PyStr ''search'', cmd_description = PyStr SEARCH_DESCRIPTION,
           cmd_method = PyCallable ''search'',
           options = [PulpCliOption ''--repo-id'' True False [] None None,
                      PulpCliOption ''--after'' False False [''-a''] None (Some P_iso8601),
                      PulpCliOption ''--before'' False False [''-b''] None (Some P_iso8601)],
           option_groups = []\<rparr>"
    by (simp add: UnitSearchAllCommand_init_def UnitSearchCommand_init_def
          UnitSearchCommand_body_def SearchCommand_init_def bind_flag_def kw_has_def kw_set_def
          kw_del_def kw_pop_or_def Let_def PulpCliCommand_init_def add_option_def
          create_option_def PulpCliOption_def)
  show ?thesis
    unfolding e by (simp add: option_names_def all_options_def PulpCliOption_def)
qed

end
